theory Spec2Isabelle
  imports Main
begin

section \<open>The message channel client of \<^verbatim>\<open>ui/js/websocket.js\<close>\<close>

text \<open>
  The module \<^verbatim>\<open>WS\<close> keeps three variables (\<^verbatim>\<open>socket\<close>, \<^verbatim>\<open>reconnectTimer\<close>,
  \<^verbatim>\<open>handlers\<close>), attaches four listeners to the socket it opens, and exports
  \<^verbatim>\<open>send\<close>, \<^verbatim>\<open>on\<close>, \<^verbatim>\<open>off\<close> and \<^verbatim>\<open>isConnected\<close>. Each function is embedded as a
  function on an explicit state that holds the three variables together with the parts
  of the browser the module acts on: the readyState of the socket, the table of pending
  timeouts, the console, the frames handed to the transport and the status indicator.
\<close>

subsection \<open>JavaScript values\<close>

text \<open>
  A number, as \<^verbatim>\<open>JSON.parse\<close> can return it: a zero, an infinity (the parse of
  \<^verbatim>\<open>1e999\<close>), or a finite number other than zero. The finite number \<open>NumFinite neg s n\<close>
  is the one whose shortest decimal that reads back as the same number has the digits
  of \<open>s\<close> (at least 1, with no zero at the end) and the value \<open>s * 10 ^ (n - k)\<close>, where
  \<open>k\<close> is the number of digits of \<open>s\<close>; \<open>neg\<close> is the sign. These are the three integers
  from which the language prints a number: 1500 is \<open>NumFinite False 15 4\<close>, 0.25 is
  \<open>NumFinite False 25 0\<close>, 1e21 is \<open>NumFinite False 1 22\<close>.
\<close>

datatype jsnum =
    NumZero bool
  | NumFinite bool nat int
  | NumInfinity bool

text \<open>
  The values \<^verbatim>\<open>JSON.parse\<close> can return. An object lists its own properties; a property
  read takes the first binding of the name.
\<close>

datatype jsval =
    JNull
  | JBool bool
  | JNum jsnum
  | JStr string
  | JArr "jsval list"
  | JObj "(string \<times> jsval) list"

text \<open>
  A property read \<^verbatim>\<open>v.name\<close>. Reading a property of \<^verbatim>\<open>null\<close> throws a TypeError;
  a name that is not found gives \<^verbatim>\<open>undefined\<close>, here \<open>None\<close>. Numbers, strings, booleans
  and arrays coming out of \<^verbatim>\<open>JSON.parse\<close> have no property of the names read by this
  module.
\<close>

datatype error = TypeError | Thrown string

fun get_prop :: "jsval \<Rightarrow> string \<Rightarrow> error + jsval option" where
  "get_prop JNull name = Inl TypeError"
| "get_prop (JObj kvs) name = Inr (map_of kvs name)"
| "get_prop v name = Inr None"

text \<open>Truthiness, as \<^verbatim>\<open>!v\<close> tests it; \<^verbatim>\<open>undefined\<close> is falsy as well.\<close>

fun nonzero :: "jsnum \<Rightarrow> bool" where
  "nonzero (NumZero neg) = False"
| "nonzero (NumFinite neg s n) = (s \<noteq> 0)"
| "nonzero (NumInfinity neg) = True"

fun truthy :: "jsval \<Rightarrow> bool" where
  "truthy JNull = False"
| "truthy (JBool b) = b"
| "truthy (JNum x) = nonzero x"
| "truthy (JStr s) = (s \<noteq> [])"
| "truthy (JArr xs) = True"
| "truthy (JObj kvs) = True"

text \<open>
  The conversion of a number to a string (\<^verbatim>\<open>Number::toString\<close> of the language, radix
  10): plain digits while \<open>-5 \<le> n \<le> 21\<close>, exponent notation outside.
\<close>

fun nat_digits :: "nat \<Rightarrow> string" where
  "nat_digits n =
     (if n < 10 then [''0123456789'' ! n]
      else nat_digits (n div 10) @ [''0123456789'' ! (n mod 10)])"

declare nat_digits.simps [simp del]

definition finite_to_string :: "string \<Rightarrow> int \<Rightarrow> string" where
  "finite_to_string ds n =
     (let k = int (length ds) in
      if - 5 \<le> n \<and> n \<le> 21 then
        (if k \<le> n then ds @ replicate (nat (n - k)) (CHR ''0'')
         else if 0 < n then take (nat n) ds @ ''.'' @ drop (nat n) ds
         else ''0.'' @ replicate (nat (- n)) (CHR ''0'') @ ds)
      else
        (let e = n - 1;
             es = (if e < 0 then ''-'' else ''+'') @ nat_digits (nat \<bar>e\<bar>)
         in if k = 1 then ds @ ''e'' @ es
            else take 1 ds @ ''.'' @ drop 1 ds @ ''e'' @ es))"

fun number_to_string :: "jsnum \<Rightarrow> string" where
  "number_to_string (NumZero neg) = ''0''"
| "number_to_string (NumInfinity neg) = (if neg then ''-Infinity'' else ''Infinity'')"
| "number_to_string (NumFinite neg s n) =
     (if s = 0 then ''0''
      else (if neg then ''-'' else []) @ finite_to_string (nat_digits s) n)"

text \<open>
  The conversion of a value to a string, which the computed property name
  \<^verbatim>\<open>handlers[type]\<close> and the template literal of the \<^verbatim>\<open>catch\<close> block both apply. An
  array is joined with commas, \<^verbatim>\<open>null\<close> elements giving the empty string. An object is
  converted by its \<^verbatim>\<open>toString\<close> method: the inherited one gives
  \<^verbatim>\<open>[object Object]\<close>; an own property of that name, which in a decoded object is never
  a function, makes the conversion throw a TypeError.
\<close>

fun join_comma :: "(error + string) list \<Rightarrow> error + string" where
  "join_comma [] = Inr []"
| "join_comma [x] = x"
| "join_comma (x # y # zs) =
     (case x of
        Inl e \<Rightarrow> Inl e
      | Inr s \<Rightarrow> (case join_comma (y # zs) of Inl e \<Rightarrow> Inl e | Inr r \<Rightarrow> Inr (s @ '','' @ r)))"

fun ToString :: "jsval \<Rightarrow> error + string" where
  "ToString JNull = Inr ''null''"
| "ToString (JBool b) = Inr (if b then ''true'' else ''false'')"
| "ToString (JNum x) = Inr (number_to_string x)"
| "ToString (JStr s) = Inr s"
| "ToString (JArr xs) = join_comma (map (\<lambda>x. if x = JNull then Inr [] else ToString x) xs)"
| "ToString (JObj kvs) =
     (if map_of kvs ''toString'' \<noteq> None then Inl TypeError else Inr ''[object Object]'')"

text \<open>Strings, numbers, booleans and \<^verbatim>\<open>null\<close> cannot be changed once they exist.\<close>

fun primitive :: "jsval \<Rightarrow> bool" where
  "primitive (JArr xs) = False"
| "primitive (JObj kvs) = False"
| "primitive v = True"

subsection \<open>The state\<close>

datatype ready_state = CONNECTING | OPEN | CLOSING | CLOSED

record websocket =
  url :: string
  readyState :: ready_state

text \<open>A callback is identified by its reference: \<^verbatim>\<open>off\<close> compares with \<^verbatim>\<open>!==\<close>.\<close>

type_synonym handler = nat

text \<open>One constructor for each call of \<^verbatim>\<open>console\<close> in the module.\<close>

datatype diagnostic =
    LogConnected
  | WarnClosed int string
  | ErrorEvent string
  | WarnNonJSON string
  | WarnNoType jsval
  | ErrorHandler string error
  | ErrorCatchAll error
  | LogReconnect
  | WarnCannotSend jsval

record timeout =
  tid :: nat
  due :: nat

text \<open>
  An invocation of a callback: the reference, the argument it received and how the call
  ended (\<open>None\<close>: it returned).
\<close>

type_synonym invocation = "handler \<times> jsval \<times> error option"

text \<open>
  \<open>handlers\<close> holds the own properties of the object \<^verbatim>\<open>handlers = {}\<close>. \<open>console\<close> is
  what the module has printed. \<open>dom\<close> is the class of \<^verbatim>\<open>#ws-dot\<close> and the text of
  \<^verbatim>\<open>#ws-label\<close>, or \<open>None\<close> when one of the two elements is missing from the page.
  \<open>calls\<close> keeps a record of the callbacks the listener has invoked. \<open>app\<close> is whatever
  the callbacks of the application read and write, the present contents of a decoded
  object they were handed included.
\<close>

record 'a channel =
  socket :: "websocket option"
  reconnectTimer :: "nat option"
  handlers :: "string \<rightharpoonup> handler list"
  timers :: "timeout list"
  next_tid :: nat
  clock :: nat
  console :: "diagnostic list"
  sent :: "string list"
  dom :: "(string \<times> string) option"
  calls :: "invocation list"
  app :: 'a

subsection \<open>Callbacks\<close>

text \<open>
  How a call of a callback ends. When it throws, the \<^verbatim>\<open>catch\<close> block converts the
  type of the frame to a string once more. A type that is an array or an object is part
  of the decoded object the callback was handed, so the callback may have changed it:
  the second component of \<open>Throws\<close> is \<open>None\<close> when the callback has left that value
  as it was, and otherwise what the conversion gives now. It is not read for a type
  that is primitive.
\<close>

datatype completion = Returns | Throws error "(error + string) option"

text \<open>
  What a callback does, seen from the module: it calls exported functions of \<^verbatim>\<open>WS\<close> any
  number of times, going on according to what each call gives back (\<open>Some TypeError\<close>
  when \<^verbatim>\<open>on\<close> or \<^verbatim>\<open>off\<close> throws), and in the end returns or throws, leaving the
  application in a new state. A callback that never ends is not described.
\<close>

datatype 'a script =
    Finish completion 'a
  | DoSend jsval "bool \<Rightarrow> 'a script"
  | DoOn string handler "error option \<Rightarrow> 'a script"
  | DoOff string handler "error option \<Rightarrow> 'a script"
  | DoIsConnected "jsval \<Rightarrow> 'a script"

text \<open>
  What the module takes from outside: the two built-in JSON functions and the bodies of
  the callbacks, each a function of the decoded object it is handed and of the state of
  the application.
\<close>

record 'a env =
  JSON_parse :: "string \<Rightarrow> jsval option"
  JSON_stringify :: "jsval \<Rightarrow> string"
  handler_body :: "handler \<Rightarrow> jsval \<Rightarrow> 'a \<Rightarrow> 'a script"

definition WS_URL :: string where
  "WS_URL = ''ws://127.0.0.1:8765''"

definition RECONNECT_DELAY :: nat where
  "RECONNECT_DELAY = 3000"

subsection \<open>Console and timers\<close>

definition console_emit :: "diagnostic \<Rightarrow> 'a channel \<Rightarrow> 'a channel" where
  "console_emit d st = st\<lparr>console := console st @ [d]\<rparr>"

text \<open>\<^verbatim>\<open>clearTimeout(id)\<close> ignores \<^verbatim>\<open>null\<close> and an id that is not pending.\<close>

definition clearTimeout :: "nat option \<Rightarrow> 'a channel \<Rightarrow> 'a channel" where
  "clearTimeout r st =
     (case r of
        None \<Rightarrow> st
      | Some i \<Rightarrow> st\<lparr>timers := filter (\<lambda>t. tid t \<noteq> i) (timers st)\<rparr>)"

definition setTimeout :: "nat \<Rightarrow> 'a channel \<Rightarrow> nat \<times> 'a channel" where
  "setTimeout delay st =
     (next_tid st,
      st\<lparr>timers := timers st @ [\<lparr>tid = next_tid st, due = clock st + delay\<rparr>],
         next_tid := Suc (next_tid st)\<rparr>)"

subsection \<open>Status helper\<close>

text \<open>
  The module calls \<^verbatim>\<open>setStatus\<close> with the three states of the table \<^verbatim>\<open>labels\<close> only.
\<close>

definition status_label :: "string \<Rightarrow> string" where
  "status_label state =
     (if state = ''connected'' then ''Connected''
      else if state = ''disconnected'' then ''Disconnected''
      else if state = ''loading'' then ''Connecting...''
      else state)"

definition setStatus :: "string \<Rightarrow> 'a channel \<Rightarrow> 'a channel" where
  "setStatus state st =
     (case dom st of
        None \<Rightarrow> st
      | Some _ \<Rightarrow> st\<lparr>dom := Some (''status-dot '' @ state, status_label state)\<rparr>)"

subsection \<open>Connection\<close>

text \<open>
  \<^verbatim>\<open>function connect() { setStatus("loading"); socket = new WebSocket(WS_URL); ... }\<close>:
  the new socket starts in readyState CONNECTING; the four listeners attached to it are
  the functions below and the one of the inbound dispatch.
\<close>

definition connect :: "'a channel \<Rightarrow> 'a channel" where
  "connect st =
     (setStatus ''loading'' st)\<lparr>socket := Some \<lparr>url = WS_URL, readyState = CONNECTING\<rparr>\<rparr>"

text \<open>
  \<^verbatim>\<open>clearTimeout(reconnectTimer); reconnectTimer = setTimeout(() => {...}, RECONNECT_DELAY);\<close>
\<close>

definition scheduleReconnect :: "'a channel \<Rightarrow> 'a channel" where
  "scheduleReconnect st =
     (let st1 = clearTimeout (reconnectTimer st) st;
          (i, st2) = setTimeout RECONNECT_DELAY st1
      in st2\<lparr>reconnectTimer := Some i\<rparr>)"

text \<open>The callback given to \<^verbatim>\<open>setTimeout\<close>.\<close>

definition reconnect_callback :: "'a channel \<Rightarrow> 'a channel" where
  "reconnect_callback st = connect (console_emit LogReconnect st)"

text \<open>
  \<^verbatim>\<open>console.log("[WS] Connected"); setStatus("connected"); clearTimeout(reconnectTimer);\<close>
\<close>

definition open_listener :: "'a channel \<Rightarrow> 'a channel" where
  "open_listener st =
     (let st1 = console_emit LogConnected st;
          st2 = setStatus ''connected'' st1
      in clearTimeout (reconnectTimer st2) st2)"

text \<open>
  \<^verbatim>\<open>console.warn("[WS] Closed", evt.code, evt.reason); setStatus("disconnected");\<close>
  \<^verbatim>\<open>socket = null; scheduleReconnect();\<close>
\<close>

definition close_listener :: "int \<Rightarrow> string \<Rightarrow> 'a channel \<Rightarrow> 'a channel" where
  "close_listener code reason st =
     (let st1 = console_emit (WarnClosed code reason) st;
          st2 = setStatus ''disconnected'' st1;
          st3 = st2\<lparr>socket := None\<rparr>
      in scheduleReconnect st3)"

text \<open>
  \<^verbatim>\<open>console.error("[WS] Error", err);\<close> The closure that follows is handled by the
  listener of \<^verbatim>\<open>close\<close>.
\<close>

definition error_listener :: "string \<Rightarrow> 'a channel \<Rightarrow> 'a channel" where
  "error_listener err st = console_emit (ErrorEvent err) st"

subsection \<open>The registry\<close>

text \<open>
  \<^verbatim>\<open>handlers\<close> is an object literal, so a read \<^verbatim>\<open>handlers[key]\<close> that finds no own
  property goes on to \<^verbatim>\<open>Object.prototype\<close>. The names found there hold functions (and
  \<^verbatim>\<open>__proto__\<close> the prototype itself): truthy values that are not arrays.
\<close>

definition Object_prototype_keys :: "string list" where
  "Object_prototype_keys =
     [''constructor'', ''__defineGetter__'', ''__defineSetter__'', ''hasOwnProperty'',
      ''__lookupGetter__'', ''__lookupSetter__'', ''isPrototypeOf'',
      ''propertyIsEnumerable'', ''toString'', ''valueOf'', ''__proto__'',
      ''toLocaleString'']"

datatype slot = Absent | Own "handler list" | Inherited

definition handlers_get :: "'a channel \<Rightarrow> string \<Rightarrow> slot" where
  "handlers_get st key =
     (case handlers st key of
        Some cbs \<Rightarrow> Own cbs
      | None \<Rightarrow> if key \<in> set Object_prototype_keys then Inherited else Absent)"

text \<open>
  \<^verbatim>\<open>(handlers[key] || [])\<close> followed by a call of an array method: an inherited value
  has no such method, and the call throws a TypeError.
\<close>

fun array_or_empty :: "slot \<Rightarrow> error + handler list" where
  "array_or_empty Absent = Inr []"
| "array_or_empty (Own cbs) = Inr cbs"
| "array_or_empty Inherited = Inl TypeError"

text \<open>
  \<^verbatim>\<open>if (!handlers[type]) handlers[type] = []; handlers[type].push(callback);\<close>
  An own property holds an array, which is truthy even when empty.
\<close>

definition on :: "string \<Rightarrow> handler \<Rightarrow> 'a channel \<Rightarrow> error option \<times> 'a channel" where
  "on type callback st =
     (case handlers_get st type of
        Absent \<Rightarrow> (None, st\<lparr>handlers := (handlers st)(type \<mapsto> [] @ [callback])\<rparr>)
      | Own cbs \<Rightarrow> (None, st\<lparr>handlers := (handlers st)(type \<mapsto> cbs @ [callback])\<rparr>)
      | Inherited \<Rightarrow> (Some TypeError, st))"

text \<open>
  \<^verbatim>\<open>if (!handlers[type]) return;\<close>
  \<^verbatim>\<open>handlers[type] = handlers[type].filter(cb => cb !== callback);\<close>
\<close>

definition off :: "string \<Rightarrow> handler \<Rightarrow> 'a channel \<Rightarrow> error option \<times> 'a channel" where
  "off type callback st =
     (case handlers_get st type of
        Absent \<Rightarrow> (None, st)
      | Own cbs \<Rightarrow>
          (None, st\<lparr>handlers := (handlers st)(type \<mapsto> filter (\<lambda>cb. cb \<noteq> callback) cbs)\<rparr>)
      | Inherited \<Rightarrow> (Some TypeError, st))"

subsection \<open>Outbound send and the connection test\<close>

text \<open>
  \<^verbatim>\<open>if (!socket || socket.readyState !== WebSocket.OPEN) { console.warn(...); return false; }\<close>
  \<^verbatim>\<open>socket.send(JSON.stringify(payload)); return true;\<close>
\<close>

definition send :: "'a env \<Rightarrow> jsval \<Rightarrow> 'a channel \<Rightarrow> bool \<times> 'a channel" where
  "send E payload st =
     (case socket st of
        None \<Rightarrow> (False, console_emit (WarnCannotSend payload) st)
      | Some s \<Rightarrow>
          if readyState s \<noteq> OPEN then (False, console_emit (WarnCannotSend payload) st)
          else (True, st\<lparr>sent := sent st @ [JSON_stringify E payload]\<rparr>))"

text \<open>
  \<^verbatim>\<open>socket && socket.readyState === WebSocket.OPEN\<close>: the value of \<^verbatim>\<open>&&\<close> is its left
  operand when that is falsy.
\<close>

definition isConnected :: "'a channel \<Rightarrow> jsval" where
  "isConnected st =
     (case socket st of
        None \<Rightarrow> JNull
      | Some s \<Rightarrow> JBool (readyState s = OPEN))"

subsection \<open>Inbound dispatch\<close>

text \<open>
  Running a callback: each call of an exported function acts on the state as that
  function does, and its result decides how the callback goes on.
\<close>

primrec exec :: "'a env \<Rightarrow> 'a script \<Rightarrow> 'a channel \<Rightarrow> completion \<times> 'a channel" where
  "exec E (Finish c a) st = (c, st\<lparr>app := a\<rparr>)"
| "exec E (DoSend payload k) st =
     (case send E payload st of (b, st') \<Rightarrow> exec E (k b) st')"
| "exec E (DoOn type cb k) st =
     (case on type cb st of (r, st') \<Rightarrow> exec E (k r) st')"
| "exec E (DoOff type cb k) st =
     (case off type cb st of (r, st') \<Rightarrow> exec E (k r) st')"
| "exec E (DoIsConnected k) st = exec E (k (isConnected st)) st"

text \<open>
  \<^verbatim>\<open>cbs.forEach(cb => { try { cb(payload); } catch (e) { console.error(..., e); } })\<close>.
  \<open>cbs\<close> is the array as it is when \<^verbatim>\<open>forEach\<close> starts: \<^verbatim>\<open>forEach\<close> visits the
  elements present at that moment, \<^verbatim>\<open>on\<close> only appends to an array and \<^verbatim>\<open>off\<close> puts
  a new array in its place. \<open>report\<close> builds the argument of \<^verbatim>\<open>console.error\<close>; when
  building it throws, the exception leaves the \<^verbatim>\<open>catch\<close> block and the listener, and
  the callbacks that remain are not called.
\<close>

fun forEach_try ::
  "'a env \<Rightarrow> (error \<Rightarrow> (error + string) option \<Rightarrow> error + diagnostic) \<Rightarrow> jsval \<Rightarrow>
   handler list \<Rightarrow>
   'a channel \<Rightarrow> error option \<times> 'a channel"
where
  "forEach_try E report payload [] st = (None, st)"
| "forEach_try E report payload (cb # cbs) st =
     (case exec E (handler_body E cb payload (app st)) st of
        (Returns, st') \<Rightarrow>
          forEach_try E report payload cbs (st'\<lparr>calls := calls st' @ [(cb, payload, None)]\<rparr>)
      | (Throws e l, st') \<Rightarrow>
          (case report e l of
             Inl x \<Rightarrow> (Some x, st'\<lparr>calls := calls st' @ [(cb, payload, Some e)]\<rparr>)
           | Inr d \<Rightarrow>
               forEach_try E report payload cbs
                 (st'\<lparr>calls := calls st' @ [(cb, payload, Some e)],
                     console := console st' @ [d]\<rparr>)))"

text \<open>
  \<^verbatim>\<open>console.error(`[WS] Handler error for '${type}':`, e)\<close>: the template literal
  converts \<^verbatim>\<open>type\<close> to a string, which gives the key again unless a callback has
  changed the value.
\<close>

definition report_handler ::
  "jsval \<Rightarrow> string \<Rightarrow> error \<Rightarrow> (error + string) option \<Rightarrow> error + diagnostic" where
  "report_handler type key e l =
     (case (if primitive type then Inr key
            else (case l of None \<Rightarrow> Inr key | Some now \<Rightarrow> now)) of
        Inl x \<Rightarrow> Inl x
      | Inr s \<Rightarrow> Inr (ErrorHandler s e))"

text \<open>\<^verbatim>\<open>console.error("[WS] Catch-all handler error:", e)\<close>\<close>

definition report_catch_all :: "error \<Rightarrow> (error + string) option \<Rightarrow> error + diagnostic" where
  "report_catch_all e l = Inr (ErrorCatchAll e)"

text \<open>
  The listener of \<^verbatim>\<open>message\<close>, statement by statement: the parse inside
  \<^verbatim>\<open>try\<close>, the read of \<^verbatim>\<open>payload.type\<close> outside of it, the guard \<^verbatim>\<open>if (!type)\<close>,
  the pass over \<^verbatim>\<open>handlers[type] || []\<close>, whose key is the type converted to a
  string, and the pass over \<^verbatim>\<open>handlers["*"] || []\<close>, read when the first pass is over.
  The first component of the result is the exception that leaves the listener, if any.
\<close>

definition message_listener :: "'a env \<Rightarrow> string \<Rightarrow> 'a channel \<Rightarrow> error option \<times> 'a channel" where
  "message_listener E data st =
     (case JSON_parse E data of
        None \<Rightarrow> (None, console_emit (WarnNonJSON data) st)
      | Some payload \<Rightarrow>
          (case get_prop payload ''type'' of
             Inl e \<Rightarrow> (Some e, st)
           | Inr None \<Rightarrow> (None, console_emit (WarnNoType payload) st)
           | Inr (Some type) \<Rightarrow>
               if \<not> truthy type then (None, console_emit (WarnNoType payload) st)
               else
                 (case ToString type of
                    Inl e \<Rightarrow> (Some e, st)
                  | Inr key \<Rightarrow>
                      (case array_or_empty (handlers_get st key) of
                         Inl e \<Rightarrow> (Some e, st)
                       | Inr cbs \<Rightarrow>
                           (case forEach_try E (report_handler type key) payload cbs st of
                              (Some e, st1) \<Rightarrow> (Some e, st1)
                            | (None, st1) \<Rightarrow>
                                (case array_or_empty (handlers_get st1 ''*'') of
                                   Inl e \<Rightarrow> (Some e, st1)
                                 | Inr stars \<Rightarrow>
                                     forEach_try E report_catch_all payload stars st1))))))"

subsection \<open>The module at load time and the events it reacts to\<close>

text \<open>
  The variables as the module declares them, on a page whose status indicator is \<open>d\<close>
  and an application in state \<open>a\<close>; the last statement of the module calls
  \<^verbatim>\<open>connect()\<close>.
\<close>

definition initial :: "(string \<times> string) option \<Rightarrow> 'a \<Rightarrow> 'a channel" where
  "initial d a =
     \<lparr>socket = None, reconnectTimer = None, handlers = Map.empty, timers = [],
      next_tid = 1, clock = 0, console = [], sent = [], dom = d, calls = [], app = a\<rparr>"

definition module_load :: "(string \<times> string) option \<Rightarrow> 'a \<Rightarrow> 'a channel" where
  "module_load d a = connect (initial d a)"

text \<open>
  What can happen next: the transport reports on the socket, time passes, the event loop
  runs a timeout that is due, or the application calls one of the exported functions.
  The browser sets the readyState of a socket before it fires \<^verbatim>\<open>open\<close> or \<^verbatim>\<open>close\<close>.
\<close>

datatype event =
    EvOpen
  | EvClose int string
  | EvError string
  | EvMessage string
  | EvElapse nat
  | EvTimeout
  | CallSend jsval
  | CallOn string handler
  | CallOff string handler
  | CallIsConnected

definition set_readyState :: "ready_state \<Rightarrow> 'a channel \<Rightarrow> 'a channel" where
  "set_readyState r st = st\<lparr>socket := map_option (\<lambda>s. s\<lparr>readyState := r\<rparr>) (socket st)\<rparr>"

definition run_due_timeout :: "'a channel \<Rightarrow> 'a channel" where
  "run_due_timeout st =
     (case filter (\<lambda>t. due t \<le> clock st) (timers st) of
        [] \<Rightarrow> st
      | t # _ \<Rightarrow> reconnect_callback (st\<lparr>timers := filter (\<lambda>u. tid u \<noteq> tid t) (timers st)\<rparr>))"

fun step :: "'a env \<Rightarrow> event \<Rightarrow> 'a channel \<Rightarrow> 'a channel" where
  "step E EvOpen st = open_listener (set_readyState OPEN st)"
| "step E (EvClose code reason) st = close_listener code reason (set_readyState CLOSED st)"
| "step E (EvError err) st = error_listener err st"
| "step E (EvMessage data) st = snd (message_listener E data st)"
| "step E (EvElapse d) st = st\<lparr>clock := clock st + d\<rparr>"
| "step E EvTimeout st = run_due_timeout st"
| "step E (CallSend payload) st = snd (send E payload st)"
| "step E (CallOn type callback) st = snd (on type callback st)"
| "step E (CallOff type callback) st = snd (off type callback st)"
| "step E CallIsConnected st = st"

fun run :: "'a env \<Rightarrow> event list \<Rightarrow> 'a channel \<Rightarrow> 'a channel" where
  "run E [] st = st"
| "run E (ev # evs) st = run E evs (step E ev st)"

subsection \<open>Notions the properties are stated with\<close>

text \<open>The connection is open: the negation of the guard of \<^verbatim>\<open>send\<close>.\<close>

definition connection_open :: "'a channel \<Rightarrow> bool" where
  "connection_open st = (case socket st of None \<Rightarrow> False | Some s \<Rightarrow> readyState s = OPEN)"

text \<open>The callbacks subscribed under a key, in registration order.\<close>

definition registered :: "'a channel \<Rightarrow> string \<Rightarrow> handler list" where
  "registered st key = (case handlers st key of None \<Rightarrow> [] | Some cbs \<Rightarrow> cbs)"

text \<open>
  The dispatch as the specification words it. One handler is invoked with the decoded
  object, isolated: it runs with all its effects, and when it fails the failure is
  caught where the call is made and logged.
\<close>

definition invoke_isolated ::
  "'a env \<Rightarrow> (error \<Rightarrow> diagnostic) \<Rightarrow> jsval \<Rightarrow> 'a channel \<Rightarrow> handler \<Rightarrow> 'a channel" where
  "invoke_isolated E log payload st h =
     (let (c, st') = exec E (handler_body E h payload (app st)) st
      in case c of
           Returns \<Rightarrow> st'\<lparr>calls := calls st' @ [(h, payload, None)]\<rparr>
         | Throws e l \<Rightarrow>
             st'\<lparr>calls := calls st' @ [(h, payload, Some e)], console := console st' @ [log e]\<rparr>)"

text \<open>
  A sequence of handlers is invoked in order: each one starts in the state the one
  before it has left, whether that one returned or failed.
\<close>

definition invoke_in_order ::
  "'a env \<Rightarrow> (error \<Rightarrow> diagnostic) \<Rightarrow> jsval \<Rightarrow> handler list \<Rightarrow> 'a channel \<Rightarrow> 'a channel" where
  "invoke_in_order E log payload hs st = foldl (invoke_isolated E log payload) st hs"

text \<open>
  The state in which a frame of string type \<open>t\<close> leaves the type-specific pass: the
  handlers subscribed under \<open>t\<close> when the frame arrives have been invoked in order.
\<close>

definition after_type_pass :: "'a env \<Rightarrow> string \<Rightarrow> jsval \<Rightarrow> 'a channel \<Rightarrow> 'a channel" where
  "after_type_pass E t payload st = invoke_in_order E (ErrorHandler t) payload (registered st t) st"

text \<open>
  The state in which it leaves the wildcard pass: the handlers subscribed under the
  wildcard key when the first pass is over have been invoked in order.
\<close>

definition after_both_passes :: "'a env \<Rightarrow> string \<Rightarrow> jsval \<Rightarrow> 'a channel \<Rightarrow> 'a channel" where
  "after_both_passes E t payload st =
     invoke_in_order E ErrorCatchAll payload
       (registered (after_type_pass E t payload st) ''*'') (after_type_pass E t payload st)"

text \<open>The invocations made on the way from one state to a later one.\<close>

definition invocations :: "'a channel \<Rightarrow> 'a channel \<Rightarrow> invocation list" where
  "invocations st st' = drop (length (calls st)) (calls st')"

text \<open>What the dispatch of one frame invokes, and what it prints.\<close>

definition dispatched :: "'a env \<Rightarrow> string \<Rightarrow> 'a channel \<Rightarrow> invocation list" where
  "dispatched E data st = invocations st (snd (message_listener E data st))"

definition printed :: "'a env \<Rightarrow> string \<Rightarrow> 'a channel \<Rightarrow> diagnostic list" where
  "printed E data st = drop (length (console st)) (console (snd (message_listener E data st)))"

text \<open>The exceptions among a list of invocations, in order.\<close>

definition thrown :: "invocation list \<Rightarrow> error list" where
  "thrown cs = List.map_filter (\<lambda>c. snd (snd c)) cs"

text \<open>The diagnostics of the two \<^verbatim>\<open>catch\<close> blocks.\<close>

fun handler_error :: "diagnostic \<Rightarrow> bool" where
  "handler_error (ErrorHandler s e) = True"
| "handler_error (ErrorCatchAll e) = True"
| "handler_error d = False"

text \<open>
  What the exported functions leave alone, so that no callback can change it: the
  connection, the timeouts, the clock, the status indicator and the record of the
  invocations; and the console only grows, by diagnostics other than those of the two
  \<^verbatim>\<open>catch\<close> blocks.
\<close>

definition untouched :: "'a channel \<Rightarrow> 'a channel \<Rightarrow> bool" where
  "untouched st st' \<longleftrightarrow>
     socket st' = socket st \<and> reconnectTimer st' = reconnectTimer st \<and>
     timers st' = timers st \<and> next_tid st' = next_tid st \<and> clock st' = clock st \<and>
     dom st' = dom st \<and> calls st' = calls st \<and>
     take (length (console st)) (console st') = console st \<and>
     filter handler_error (drop (length (console st)) (console st')) = []"

text \<open>At most one timeout is pending, and \<^verbatim>\<open>reconnectTimer\<close> holds its id.\<close>

definition pending_ok :: "'a channel \<Rightarrow> bool" where
  "pending_ok st =
     (case timers st of
        [] \<Rightarrow> True
      | [t] \<Rightarrow> reconnectTimer st = Some (tid t)
      | _ \<Rightarrow> False)"

subsection \<open>A small environment for the examples\<close>

text \<open>
  \<^verbatim>\<open>JSON.parse\<close> and \<^verbatim>\<open>JSON.stringify\<close> on the few texts and values the examples use;
  the examples read the two tables nowhere else.
\<close>

definition sample_parse :: "string \<Rightarrow> jsval option" where
  \<open>sample_parse s =
     (if s = ''null'' then Some JNull
      else if s = ''{"type":""}'' then Some (JObj [(''type'', JStr [])])
      else if s = ''{"type":0}'' then Some (JObj [(''type'', JNum (NumZero False))])
      else if s = ''{"type":"*"}'' then Some (JObj [(''type'', JStr ''*'')])
      else if s = ''{"type":"a","data":1}'' then
        Some (JObj [(''type'', JStr ''a''), (''data'', JNum (NumFinite False 1 1))])
      else if s = ''{"type":"toString"}'' then Some (JObj [(''type'', JStr ''toString'')])
      else if s = ''{"type":{"toString":1}}'' then
        Some (JObj [(''type'', JObj [(''toString'', JNum (NumFinite False 1 1))])])
      else if s = ''{"status":"ok"}'' then Some (JObj [(''status'', JStr ''ok'')])
      else None)\<close>

definition sample_stringify :: "jsval \<Rightarrow> string" where
  \<open>sample_stringify v =
     (if v = JObj [(''action'', JStr ''get_all'')] then ''{"action":"get_all"}''
      else ''null'')\<close>

text \<open>
  The callbacks of the examples. Each one adds its own reference to the list that is the
  state of the application, so that the list shows which callbacks have run, in order.
  Callback 2 throws. Callback 6 unsubscribes callback 4 from the wildcard key and
  throws. Callback 8 unsubscribes itself from the wildcard key. Every other callback
  returns at once.
\<close>

definition sample_callback :: "handler \<Rightarrow> jsval \<Rightarrow> nat list \<Rightarrow> nat list script" where
  "sample_callback cb payload a =
     (if cb = 2 then Finish (Throws (Thrown ''boom'') None) (a @ [2])
      else if cb = 6 then
        DoOff ''*'' 4 (\<lambda>r. Finish (Throws (Thrown ''boom'') None) (a @ [6]))
      else if cb = 8 then DoOff ''*'' 8 (\<lambda>r. Finish Returns (a @ [8]))
      else Finish Returns (a @ [cb]))"

definition sample_env :: "nat list env" where
  "sample_env =
     \<lparr>JSON_parse = sample_parse, JSON_stringify = sample_stringify,
      handler_body = sample_callback\<rparr>"

text \<open>A page with a status indicator, right after the module has loaded.\<close>

definition loaded :: "nat list channel" where
  "loaded = module_load (Some ([], [])) []"

text \<open>
  The application after it has subscribed callbacks 1, 2 and 3 under \<^verbatim>\<open>"a"\<close> and
  callback 4 under the wildcard key.
\<close>

definition subscribed :: "nat list channel" where
  "subscribed =
     run sample_env [CallOn ''a'' 1, CallOn ''a'' 2, CallOn ''a'' 3, CallOn ''*'' 4] loaded"





text \<open>Callbacks 8 and 4 subscribed under the wildcard key.\<close>

definition self_remover :: "nat list channel" where
  "self_remover = run sample_env [CallOn ''*'' 8, CallOn ''*'' 4] loaded"

section \<open>Properties\<close>

subsection \<open>Helpers: callbacks and the dispatch loop\<close>

lemma star_not_inherited: "''*'' \<notin> set Object_prototype_keys"
  by (simp add: Object_prototype_keys_def)

lemma array_or_empty_Inr:
  "array_or_empty (handlers_get st key) = Inr cbs \<Longrightarrow> cbs = registered st key"
  by (auto simp: handlers_get_def registered_def split: option.splits if_splits)

lemma array_or_empty_registered:
  "key \<notin> set Object_prototype_keys \<Longrightarrow>
   array_or_empty (handlers_get st key) = Inr (registered st key)"
  by (simp add: handlers_get_def registered_def split: option.splits)

lemma thrown_append: "thrown (xs @ ys) = thrown xs @ thrown ys"
  by (simp add: thrown_def map_filter_def)

lemma thrown_simps [simp]:
  "thrown [] = []"
  "thrown ((cb, p, None) # cs) = thrown cs"
  "thrown ((cb, p, Some e) # cs) = e # thrown cs"
  by (simp_all add: thrown_def map_filter_def)

text \<open>What a call of an exported function, and so a callback, leaves alone.\<close>

lemma untouched_refl: "untouched st st"
  by (simp add: untouched_def)

lemma untouched_trans: "untouched st st' \<Longrightarrow> untouched st' st'' \<Longrightarrow> untouched st st''"
proof -
  assume a: "untouched st st'" and b: "untouched st' st''"
  from a obtain ws where ws: "console st' = console st @ ws" "filter handler_error ws = []"
    unfolding untouched_def by (metis append_take_drop_id)
  from b obtain vs where vs: "console st'' = console st' @ vs" "filter handler_error vs = []"
    unfolding untouched_def by (metis append_take_drop_id)
  have "console st'' = console st @ (ws @ vs)" using ws vs by simp
  moreover have "filter handler_error (ws @ vs) = []" using ws vs by simp
  ultimately show ?thesis using a b unfolding untouched_def by simp
qed

lemma untouched_send: "untouched st (snd (send E m st))"
  by (simp add: untouched_def send_def console_emit_def split: option.split)

lemma untouched_on: "untouched st (snd (on t h st))"
  by (simp add: untouched_def on_def split: slot.split)

lemma untouched_off: "untouched st (snd (off t h st))"
  by (simp add: untouched_def off_def split: slot.split)

lemma untouched_exec: "untouched st (snd (exec E s st))"
proof (induction s arbitrary: st)
  case (Finish c a)
  show ?case by (simp add: untouched_def)
next
  case (DoSend m k)
  obtain b st' where s: "send E m st = (b, st')" by (cases "send E m st")
  have "untouched st st'" using untouched_send [of st E m] s by simp
  moreover have "untouched st' (snd (exec E (k b) st'))" using DoSend by simp
  ultimately show ?case using s by (simp add: untouched_trans)
next
  case (DoOn t h k)
  obtain r st' where s: "on t h st = (r, st')" by (cases "on t h st")
  have "untouched st st'" using untouched_on [of st t h] s by simp
  moreover have "untouched st' (snd (exec E (k r) st'))" using DoOn by simp
  ultimately show ?case using s by (simp add: untouched_trans)
next
  case (DoOff t h k)
  obtain r st' where s: "off t h st = (r, st')" by (cases "off t h st")
  have "untouched st st'" using untouched_off [of st t h] s by simp
  moreover have "untouched st' (snd (exec E (k r) st'))" using DoOff by simp
  ultimately show ?case using s by (simp add: untouched_trans)
next
  case (DoIsConnected k)
  then show ?case by simp
qed

lemma untouched_console:
  assumes "untouched st st'"
  obtains ws where "console st' = console st @ ws" "filter handler_error ws = []"
  using assms unfolding untouched_def by (metis append_take_drop_id)

text \<open>One handler invoked in isolation: what it adds to the record and to the console.\<close>

lemma invoke_isolated_effect:
  assumes log: "\<And>e. handler_error (log e)"
  shows "\<exists>r ws. calls (invoke_isolated E log p st h) = calls st @ [(h, p, r)] \<and>
     console (invoke_isolated E log p st h) = console st @ ws \<and>
     filter handler_error ws = map log (thrown [(h, p, r)]) \<and>
     socket (invoke_isolated E log p st h) = socket st \<and>
     reconnectTimer (invoke_isolated E log p st h) = reconnectTimer st \<and>
     timers (invoke_isolated E log p st h) = timers st \<and>
     next_tid (invoke_isolated E log p st h) = next_tid st \<and>
     clock (invoke_isolated E log p st h) = clock st"
proof -
  obtain c st' where x: "exec E (handler_body E h p (app st)) st = (c, st')"
    by (cases "exec E (handler_body E h p (app st)) st")
  have u: "untouched st st'" using untouched_exec [of st E "handler_body E h p (app st)"] x by simp
  then obtain ws where ws: "console st' = console st @ ws" "filter handler_error ws = []"
    by (rule untouched_console)
  show ?thesis
  proof (cases c)
    case Returns
    then have "invoke_isolated E log p st h = st'\<lparr>calls := calls st' @ [(h, p, None)]\<rparr>"
      using x by (simp add: invoke_isolated_def)
    then show ?thesis using u ws
      by (intro exI [of _ None] exI [of _ ws]) (simp add: untouched_def)
  next
    case (Throws e l)
    then have "invoke_isolated E log p st h =
        st'\<lparr>calls := calls st' @ [(h, p, Some e)], console := console st' @ [log e]\<rparr>"
      using x by (simp add: invoke_isolated_def)
    then show ?thesis using u ws log
      by (intro exI [of _ "Some e"] exI [of _ "ws @ [log e]"]) (simp add: untouched_def)
  qed
qed

lemma invoke_in_order_Cons:
  "invoke_in_order E log p (h # hs) st = invoke_in_order E log p hs (invoke_isolated E log p st h)"
  by (simp add: invoke_in_order_def)

lemma invoke_in_order_Nil [simp]: "invoke_in_order E log p [] st = st"
  by (simp add: invoke_in_order_def)

lemma invoke_in_order_append:
  "invoke_in_order E log p (hs @ hs') st =
   invoke_in_order E log p hs' (invoke_in_order E log p hs st)"
  by (simp add: invoke_in_order_def)

lemma invoke_in_order_effect:
  assumes log: "\<And>e. handler_error (log e)"
  shows "\<exists>zs ws. calls (invoke_in_order E log p hs st) = calls st @ zs \<and>
     map fst zs = hs \<and> (\<forall>c \<in> set zs. fst (snd c) = p) \<and>
     console (invoke_in_order E log p hs st) = console st @ ws \<and>
     filter handler_error ws = map log (thrown zs) \<and>
     socket (invoke_in_order E log p hs st) = socket st \<and>
     reconnectTimer (invoke_in_order E log p hs st) = reconnectTimer st \<and>
     timers (invoke_in_order E log p hs st) = timers st \<and>
     next_tid (invoke_in_order E log p hs st) = next_tid st \<and>
     clock (invoke_in_order E log p hs st) = clock st"
proof (induction hs arbitrary: st)
  case Nil
  show ?case by (intro exI [of _ "[]"]) simp
next
  case (Cons h hs)
  let ?s = "invoke_isolated E log p st h"
  from invoke_isolated_effect [of log E p st h, OF log] obtain r ws where
    a: "calls ?s = calls st @ [(h, p, r)]" "console ?s = console st @ ws"
      "filter handler_error ws = map log (thrown [(h, p, r)])"
      "socket ?s = socket st" "reconnectTimer ?s = reconnectTimer st" "timers ?s = timers st"
      "next_tid ?s = next_tid st" "clock ?s = clock st"
    by blast
  from Cons.IH [of ?s] obtain zs vs where
    b: "calls (invoke_in_order E log p hs ?s) = calls ?s @ zs" "map fst zs = hs"
      "\<forall>c \<in> set zs. fst (snd c) = p"
      "console (invoke_in_order E log p hs ?s) = console ?s @ vs"
      "filter handler_error vs = map log (thrown zs)"
      "socket (invoke_in_order E log p hs ?s) = socket ?s"
      "reconnectTimer (invoke_in_order E log p hs ?s) = reconnectTimer ?s"
      "timers (invoke_in_order E log p hs ?s) = timers ?s"
      "next_tid (invoke_in_order E log p hs ?s) = next_tid ?s"
      "clock (invoke_in_order E log p hs ?s) = clock ?s"
    by blast
  have t: "thrown ((h, p, r) # zs) = thrown [(h, p, r)] @ thrown zs"
    using thrown_append [of "[(h, p, r)]" zs] by simp
  show ?case
    unfolding invoke_in_order_Cons
    using a b t by (intro exI [of _ "(h, p, r) # zs"] exI [of _ "ws @ vs"]) simp
qed

text \<open>
  The loop of the source does what the specification words, as long as building the
  diagnostic cannot throw.
\<close>

lemma forEach_try_in_order:
  assumes "\<And>e l. report e l = Inr (log e)"
  shows "forEach_try E report p cbs st = (None, invoke_in_order E log p cbs st)"
proof (induction cbs arbitrary: st)
  case Nil
  show ?case by simp
next
  case (Cons cb cbs)
  obtain c st' where x: "exec E (handler_body E cb p (app st)) st = (c, st')"
    by (cases "exec E (handler_body E cb p (app st)) st")
  show ?case
  proof (cases c)
    case Returns
    then show ?thesis
      using x Cons.IH by (simp add: invoke_in_order_Cons invoke_isolated_def)
  next
    case (Throws e l)
    then show ?thesis
      using x Cons.IH assms by (simp add: invoke_in_order_Cons invoke_isolated_def)
  qed
qed

text \<open>Whatever the diagnostic, the loop leaves the connection and the timeouts alone.\<close>

lemma forEach_try_frame:
  "socket (snd (forEach_try E report p cbs st)) = socket st \<and>
   reconnectTimer (snd (forEach_try E report p cbs st)) = reconnectTimer st \<and>
   timers (snd (forEach_try E report p cbs st)) = timers st \<and>
   next_tid (snd (forEach_try E report p cbs st)) = next_tid st \<and>
   clock (snd (forEach_try E report p cbs st)) = clock st"
proof (induction cbs arbitrary: st)
  case Nil
  show ?case by simp
next
  case (Cons cb cbs)
  obtain c st' where x: "exec E (handler_body E cb p (app st)) st = (c, st')"
    by (cases "exec E (handler_body E cb p (app st)) st")
  have u: "untouched st st'" using untouched_exec [of st E "handler_body E cb p (app st)"] x by simp
  show ?case
  proof (cases c)
    case Returns
    then show ?thesis
      using x u Cons.IH [of "st'\<lparr>calls := calls st' @ [(cb, p, None)]\<rparr>"]
      by (simp add: untouched_def)
  next
    case (Throws e l)
    show ?thesis
    proof (cases "report e l")
      case (Inl y)
      then show ?thesis using x u Throws by (simp add: untouched_def)
    next
      case (Inr d)
      then show ?thesis
        using x u Throws
          Cons.IH [of "st'\<lparr>calls := calls st' @ [(cb, p, Some e)], console := console st' @ [d]\<rparr>"]
        by (simp add: untouched_def)
    qed
  qed
qed

lemma message_listener_frame:
  "socket (snd (message_listener E data st)) = socket st"
  "reconnectTimer (snd (message_listener E data st)) = reconnectTimer st"
  "timers (snd (message_listener E data st)) = timers st"
  "next_tid (snd (message_listener E data st)) = next_tid st"
  "clock (snd (message_listener E data st)) = clock st"
proof -
  have "socket (snd (message_listener E data st)) = socket st \<and>
    reconnectTimer (snd (message_listener E data st)) = reconnectTimer st \<and>
    timers (snd (message_listener E data st)) = timers st \<and>
    next_tid (snd (message_listener E data st)) = next_tid st \<and>
    clock (snd (message_listener E data st)) = clock st"
  proof (cases "JSON_parse E data")
    case None
    then show ?thesis by (simp add: message_listener_def console_emit_def)
  next
    case (Some p)
    show ?thesis
    proof (cases "get_prop p ''type''")
      case (Inl e)
      with Some show ?thesis by (simp add: message_listener_def)
    next
      case (Inr ty)
      show ?thesis
      proof (cases ty)
        case None
        with Some Inr show ?thesis by (simp add: message_listener_def console_emit_def)
      next
        case ty: (Some t)
        show ?thesis
        proof (cases "truthy t")
          case False
          with \<open>JSON_parse E data = Some p\<close> Inr ty show ?thesis
            by (simp add: message_listener_def console_emit_def)
        next
          case True
          show ?thesis
          proof (cases "ToString t")
            case (Inl e)
            with \<open>JSON_parse E data = Some p\<close> \<open>get_prop p ''type'' = Inr ty\<close> ty True
            show ?thesis by (simp add: message_listener_def)
          next
            case key: (Inr key)
            show ?thesis
            proof (cases "array_or_empty (handlers_get st key)")
              case (Inl e)
              with \<open>JSON_parse E data = Some p\<close> \<open>get_prop p ''type'' = Inr ty\<close> ty True key
              show ?thesis by (simp add: message_listener_def)
            next
              case cbs: (Inr cbs)
              obtain r st1 where f1: "forEach_try E (report_handler t key) p cbs st = (r, st1)"
                by (cases "forEach_try E (report_handler t key) p cbs st")
              note fr1 = forEach_try_frame [of E "report_handler t key" p cbs st, unfolded f1, simplified]
              have star: "array_or_empty (handlers_get st1 ''*'') = Inr (registered st1 ''*'')"
                by (rule array_or_empty_registered [OF star_not_inherited])
              note fr2 = forEach_try_frame [of E report_catch_all p "registered st1 ''*''" st1]
              show ?thesis
                using \<open>JSON_parse E data = Some p\<close> \<open>get_prop p ''type'' = Inr ty\<close> ty True key cbs
                  f1 fr1 star fr2
                by (cases r) (simp_all add: message_listener_def)
            qed
          qed
        qed
      qed
    qed
  qed
  then show "socket (snd (message_listener E data st)) = socket st"
    "reconnectTimer (snd (message_listener E data st)) = reconnectTimer st"
    "timers (snd (message_listener E data st)) = timers st"
    "next_tid (snd (message_listener E data st)) = next_tid st"
    "clock (snd (message_listener E data st)) = clock st"
    by simp_all
qed

lemma report_handler_string:
  "report_handler (JStr t) t e l = Inr (ErrorHandler t e)"
  by (simp add: report_handler_def)

text \<open>The dispatch of a frame whose type is a string that passes both guards.\<close>

lemma message_listener_string:
  assumes parse: "JSON_parse E data = Some p"
    and type: "get_prop p ''type'' = Inr (Some (JStr t))"
    and ne: "t \<noteq> []"
    and arr: "array_or_empty (handlers_get st t) = Inr cbs"
  shows "message_listener E data st = (None, after_both_passes E t p st)"
proof -
  have cbs: "cbs = registered st t" using arr by (rule array_or_empty_Inr)
  have f1: "forEach_try E (report_handler (JStr t) t) p cbs st =
      (None, after_type_pass E t p st)"
    unfolding after_type_pass_def cbs
    by (rule forEach_try_in_order) (rule report_handler_string)
  have star: "array_or_empty (handlers_get (after_type_pass E t p st) ''*'') =
      Inr (registered (after_type_pass E t p st) ''*'')"
    by (rule array_or_empty_registered [OF star_not_inherited])
  have f2: "forEach_try E report_catch_all p (registered (after_type_pass E t p st) ''*'')
        (after_type_pass E t p st) = (None, after_both_passes E t p st)"
    unfolding after_both_passes_def
    by (rule forEach_try_in_order) (simp add: report_catch_all_def)
  show ?thesis
    using parse type ne arr f1 star f2 by (simp add: message_listener_def)
qed

lemma handler_error_logs [simp]:
  "handler_error (ErrorHandler t e)" "handler_error (ErrorCatchAll e)"
  by simp_all

text \<open>What the two passes add to the record of invocations and to the console.\<close>

lemma both_passes_effect:
  "\<exists>zs1 zs2 ws.
     calls (after_both_passes E t p st) = calls st @ zs1 @ zs2 \<and>
     map fst zs1 = registered st t \<and>
     map fst zs2 = registered (after_type_pass E t p st) ''*'' \<and>
     (\<forall>c \<in> set (zs1 @ zs2). fst (snd c) = p) \<and>
     console (after_both_passes E t p st) = console st @ ws \<and>
     filter handler_error ws = map (ErrorHandler t) (thrown zs1) @ map ErrorCatchAll (thrown zs2)"
proof -
  let ?s1 = "after_type_pass E t p st"
  from invoke_in_order_effect [of "ErrorHandler t" E p "registered st t" st]
  obtain zs1 ws1 where
    a: "calls ?s1 = calls st @ zs1" "map fst zs1 = registered st t"
      "\<forall>c \<in> set zs1. fst (snd c) = p" "console ?s1 = console st @ ws1"
      "filter handler_error ws1 = map (ErrorHandler t) (thrown zs1)"
    unfolding after_type_pass_def by auto
  from invoke_in_order_effect [of ErrorCatchAll E p "registered ?s1 ''*''" ?s1]
  obtain zs2 ws2 where
    b: "calls (after_both_passes E t p st) = calls ?s1 @ zs2"
      "map fst zs2 = registered ?s1 ''*''"
      "\<forall>c \<in> set zs2. fst (snd c) = p"
      "console (after_both_passes E t p st) = console ?s1 @ ws2"
      "filter handler_error ws2 = map ErrorCatchAll (thrown zs2)"
    unfolding after_both_passes_def by auto
  show ?thesis
    using a b by (intro exI [of _ zs1] exI [of _ zs2] exI [of _ "ws1 @ ws2"]) auto
qed

lemma dispatch_string_summary:
  assumes parse: "JSON_parse E data = Some p"
    and type: "get_prop p ''type'' = Inr (Some (JStr t))"
    and ne: "t \<noteq> []"
    and arr: "array_or_empty (handlers_get st t) = Inr cbs"
  shows "message_listener E data st = (None, after_both_passes E t p st)"
    and "map fst (dispatched E data st) =
           registered st t @ registered (after_type_pass E t p st) ''*''"
    and "\<forall>c \<in> set (dispatched E data st). fst (snd c) = p"
    and "filter handler_error (printed E data st) =
           map (ErrorHandler t) (thrown (take (length (registered st t)) (dispatched E data st))) @
           map ErrorCatchAll (thrown (drop (length (registered st t)) (dispatched E data st)))"
proof -
  note m = message_listener_string [OF parse type ne arr]
  from both_passes_effect [of E t p st] obtain zs1 zs2 ws where
    e: "calls (after_both_passes E t p st) = calls st @ zs1 @ zs2"
      "map fst zs1 = registered st t"
      "map fst zs2 = registered (after_type_pass E t p st) ''*''"
      "\<forall>c \<in> set (zs1 @ zs2). fst (snd c) = p"
      "console (after_both_passes E t p st) = console st @ ws"
      "filter handler_error ws = map (ErrorHandler t) (thrown zs1) @ map ErrorCatchAll (thrown zs2)"
    by blast
  have d: "dispatched E data st = zs1 @ zs2"
    using m e(1) by (simp add: dispatched_def invocations_def)
  have pr: "printed E data st = ws"
    using m e(5) by (simp add: printed_def)
  have l: "length zs1 = length (registered st t)" using e(2) by (metis length_map)
  show "message_listener E data st = (None, after_both_passes E t p st)" by (rule m)
  show "map fst (dispatched E data st) =
      registered st t @ registered (after_type_pass E t p st) ''*''"
    using d e(2,3) by simp
  show "\<forall>c \<in> set (dispatched E data st). fst (snd c) = p" using d e(4) by simp
  show "filter handler_error (printed E data st) =
      map (ErrorHandler t) (thrown (take (length (registered st t)) (dispatched E data st))) @
      map ErrorCatchAll (thrown (drop (length (registered st t)) (dispatched E data st)))"
    using d pr l e(6) by simp
qed


text \<open>The paths on which the listener invokes nothing.\<close>

lemma undecodable_dropped:
  "JSON_parse E data = None \<Longrightarrow>
   message_listener E data st = (None, st\<lparr>console := console st @ [WarnNonJSON data]\<rparr>)"
  by (simp add: message_listener_def console_emit_def)

lemma untyped_dropped:
  "JSON_parse E data = Some p \<Longrightarrow> get_prop p ''type'' = Inr None \<Longrightarrow>
   message_listener E data st = (None, st\<lparr>console := console st @ [WarnNoType p]\<rparr>)"
  by (simp add: message_listener_def console_emit_def)

lemma null_payload_throws:
  "JSON_parse E data = Some JNull \<Longrightarrow> message_listener E data st = (Some TypeError, st)"
  by (simp add: message_listener_def)

lemma inherited_key_throws:
  "JSON_parse E data = Some p \<Longrightarrow> get_prop p ''type'' = Inr (Some (JStr t)) \<Longrightarrow>
   handlers st t = None \<Longrightarrow> t \<in> set Object_prototype_keys \<Longrightarrow>
   message_listener E data st = (Some TypeError, st)"
  by (auto simp: message_listener_def handlers_get_def Object_prototype_keys_def)

lemma unconvertible_type_throws:
  "JSON_parse E data = Some p \<Longrightarrow> get_prop p ''type'' = Inr (Some t) \<Longrightarrow> truthy t \<Longrightarrow>
   ToString t = Inl e \<Longrightarrow> message_listener E data st = (Some e, st)"
  by (simp add: message_listener_def)

subsection \<open>Helpers: the registry\<close>

lemma on_registered:
  "t \<notin> set Object_prototype_keys \<Longrightarrow>
   on t h st = (None, st\<lparr>handlers := (handlers st)(t \<mapsto> registered st t @ [h])\<rparr>)"
  by (simp add: on_def handlers_get_def registered_def split: option.split)


lemma registered_update [simp]:
  "registered (st\<lparr>handlers := (handlers st)(t \<mapsto> cbs)\<rparr>) k = (if k = t then cbs else registered st k)"
  by (simp add: registered_def)

subsection \<open>Helpers: pending timeouts\<close>

lemma pending_ok_iff:
  "pending_ok st \<longleftrightarrow> timers st = [] \<or> (\<exists>t. timers st = [t] \<and> reconnectTimer st = Some (tid t))"
  by (auto simp: pending_ok_def split: list.splits)

lemma pending_ok_cong:
  "timers st' = timers st \<Longrightarrow> reconnectTimer st' = reconnectTimer st \<Longrightarrow>
   pending_ok st' = pending_ok st"
  by (simp add: pending_ok_iff)

lemma clear_pending:
  "pending_ok st \<Longrightarrow> timers (clearTimeout (reconnectTimer st) st) = []"
  by (auto simp: pending_ok_iff clearTimeout_def split: option.split)

lemma setStatus_frame [simp]:
  "timers (setStatus s st) = timers st"
  "reconnectTimer (setStatus s st) = reconnectTimer st"
  "next_tid (setStatus s st) = next_tid st"
  "clock (setStatus s st) = clock st"
  "socket (setStatus s st) = socket st"
  "handlers (setStatus s st) = handlers st"
  by (simp_all add: setStatus_def split: option.split)

lemma scheduleReconnect_timers:
  "pending_ok st \<Longrightarrow>
   timers (scheduleReconnect st) = [\<lparr>tid = next_tid st, due = clock st + RECONNECT_DELAY\<rparr>] \<and>
   reconnectTimer (scheduleReconnect st) = Some (next_tid st) \<and>
   next_tid (scheduleReconnect st) = Suc (next_tid st) \<and>
   clock (scheduleReconnect st) = clock st"
  by (auto simp: pending_ok_iff scheduleReconnect_def clearTimeout_def setTimeout_def
      split: option.split)

lemma close_listener_timers:
  assumes "pending_ok st"
  shows "timers (close_listener c r st) = [\<lparr>tid = next_tid st, due = clock st + RECONNECT_DELAY\<rparr>]"
    and "reconnectTimer (close_listener c r st) = Some (next_tid st)"
    and "next_tid (close_listener c r st) = Suc (next_tid st)"
    and "clock (close_listener c r st) = clock st"
    and "socket (close_listener c r st) = None"
proof -
  let ?st3 = "(setStatus ''disconnected'' (console_emit (WarnClosed c r) st))\<lparr>socket := None\<rparr>"
  have p: "pending_ok ?st3"
    using assms by (simp add: pending_ok_iff console_emit_def)
  have e: "close_listener c r st = scheduleReconnect ?st3"
    by (simp add: close_listener_def Let_def)
  note s = scheduleReconnect_timers [OF p]
  show "timers (close_listener c r st) = [\<lparr>tid = next_tid st, due = clock st + RECONNECT_DELAY\<rparr>]"
    unfolding e using s by (simp add: console_emit_def)
  show "reconnectTimer (close_listener c r st) = Some (next_tid st)"
    unfolding e using s by (simp add: console_emit_def)
  show "next_tid (close_listener c r st) = Suc (next_tid st)"
    unfolding e using s by (simp add: console_emit_def)
  show "clock (close_listener c r st) = clock st"
    unfolding e using s by (simp add: console_emit_def)
  show "socket (close_listener c r st) = None"
    unfolding e by (simp add: scheduleReconnect_def clearTimeout_def setTimeout_def Let_def
        split: option.split)
qed

lemma pending_ok_set_readyState [simp]: "pending_ok (set_readyState r st) = pending_ok st"
  by (simp add: pending_ok_iff set_readyState_def)

lemma set_readyState_frame [simp]:
  "timers (set_readyState r st) = timers st"
  "reconnectTimer (set_readyState r st) = reconnectTimer st"
  "next_tid (set_readyState r st) = next_tid st"
  "clock (set_readyState r st) = clock st"
  by (simp_all add: set_readyState_def)

lemma pending_ok_step: "pending_ok st \<Longrightarrow> pending_ok (step E ev st)"
proof (cases ev)
  case EvOpen
  assume p: "pending_ok st"
  let ?st2 = "setStatus ''connected'' (console_emit LogConnected (set_readyState OPEN st))"
  have "pending_ok ?st2" using p by (simp add: pending_ok_iff console_emit_def)
  then have "timers (clearTimeout (reconnectTimer ?st2) ?st2) = []" by (rule clear_pending)
  then show ?thesis using EvOpen by (simp add: open_listener_def Let_def pending_ok_iff)
next
  case (EvClose c r)
  assume p: "pending_ok st"
  then have "pending_ok (set_readyState CLOSED st)" by simp
  from close_listener_timers(1,2) [OF this, of c r] show ?thesis
    using EvClose by (simp add: pending_ok_iff)
next
  case (EvError e)
  assume "pending_ok st"
  then show ?thesis using EvError by (simp add: error_listener_def console_emit_def pending_ok_iff)
next
  case (EvMessage d)
  assume "pending_ok st"
  then show ?thesis using EvMessage
    by (simp add: pending_ok_cong [OF message_listener_frame(3) message_listener_frame(2)])
next
  case (EvElapse d)
  assume "pending_ok st"
  then show ?thesis using EvElapse by (simp add: pending_ok_iff)
next
  case EvTimeout
  assume p: "pending_ok st"
  show ?thesis
  proof (cases "filter (\<lambda>t. due t \<le> clock st) (timers st)")
    case Nil
    then show ?thesis using EvTimeout p by (simp add: run_due_timeout_def)
  next
    case (Cons t ts)
    then have "t \<in> set (timers st)"
      by (metis filter_is_subset list.set_intros(1) subsetD)
    with p have "timers st = [t]" by (auto simp: pending_ok_iff)
    then show ?thesis using EvTimeout Cons
      by (simp add: run_due_timeout_def reconnect_callback_def connect_def console_emit_def
          pending_ok_iff)
  qed
next
  case (CallSend m)
  assume "pending_ok st"
  then show ?thesis using CallSend
    by (simp add: send_def console_emit_def pending_ok_iff split: option.split)
next
  case (CallOn t h)
  assume "pending_ok st"
  then show ?thesis using CallOn
    by (simp add: on_def pending_ok_iff split: slot.split)
next
  case (CallOff t h)
  assume "pending_ok st"
  then show ?thesis using CallOff
    by (simp add: off_def pending_ok_iff split: slot.split)
next
  case CallIsConnected
  assume "pending_ok st"
  then show ?thesis using CallIsConnected by simp
qed

lemma pending_ok_run: "pending_ok st \<Longrightarrow> pending_ok (run E evs st)"
  by (induction evs arbitrary: st) (simp_all add: pending_ok_step)

lemma pending_ok_module_load: "pending_ok (module_load d a)"
  by (simp add: pending_ok_iff module_load_def connect_def initial_def)

lemma due_later_idle:
  assumes "timers st = [\<lparr>tid = i, due = d\<rparr>]" and "clock st < d"
  shows "run_due_timeout st = st"
  using assms by (simp add: run_due_timeout_def)

lemma due_now_reconnects:
  assumes "timers st = [\<lparr>tid = i, due = d\<rparr>]" and "d \<le> clock st"
  shows "timers (run_due_timeout st) = []"
    and "socket (run_due_timeout st) = Some \<lparr>url = WS_URL, readyState = CONNECTING\<rparr>"
  using assms
  by (simp_all add: run_due_timeout_def reconnect_callback_def connect_def console_emit_def)

subsection \<open>Helpers: the example states\<close>

lemma loaded_simps:
  "socket loaded = Some \<lparr>url = WS_URL, readyState = CONNECTING\<rparr>"
  "reconnectTimer loaded = None"
  "handlers loaded = Map.empty"
  "timers loaded = []"
  "next_tid loaded = 1"
  "clock loaded = 0"
  "console loaded = []"
  "sent loaded = []"
  "calls loaded = []"
  "app loaded = []"
  by (simp_all add: loaded_def module_load_def initial_def connect_def setStatus_def)

lemma opened_simps:
  "socket (step E EvOpen loaded) = Some \<lparr>url = WS_URL, readyState = OPEN\<rparr>"
  "reconnectTimer (step E EvOpen loaded) = None"
  "handlers (step E EvOpen loaded) = Map.empty"
  "timers (step E EvOpen loaded) = []"
  "next_tid (step E EvOpen loaded) = 1"
  "clock (step E EvOpen loaded) = 0"
  "console (step E EvOpen loaded) = [LogConnected]"
  "sent (step E EvOpen loaded) = []"
  "calls (step E EvOpen loaded) = []"
  by (simp_all add: loaded_simps open_listener_def set_readyState_def console_emit_def
      setStatus_def clearTimeout_def Let_def split: option.split)

lemma closed_simps:
  "socket (step E (EvClose c r) (step E EvOpen loaded)) = None"
  "timers (step E (EvClose c r) (step E EvOpen loaded)) = [\<lparr>tid = 1, due = 3000\<rparr>]"
  by (simp_all add: close_listener_def scheduleReconnect_def setTimeout_def clearTimeout_def
      set_readyState_def console_emit_def setStatus_def Let_def opened_simps RECONNECT_DELAY_def
      del: step.simps(1) split: option.split)

lemma a_not_inherited: "''a'' \<notin> set Object_prototype_keys"
  by (simp add: Object_prototype_keys_def)

lemma empty_not_inherited: "[] \<notin> set Object_prototype_keys"
  by (simp add: Object_prototype_keys_def)

lemma registered_handlers_update [simp]:
  "registered (st\<lparr>handlers := hs\<rparr>) k = (case hs k of None \<Rightarrow> [] | Some cbs \<Rightarrow> cbs)"
  by (simp add: registered_def)

lemma registered_loaded [simp]: "registered loaded k = []"
  by (simp add: registered_def loaded_simps)

lemma subscribed_eq:
  "subscribed = loaded\<lparr>handlers := [''a'' \<mapsto> [1, 2, 3], ''*'' \<mapsto> [4]]\<rparr>"
  by (simp add: subscribed_def on_registered a_not_inherited star_not_inherited loaded_simps)





lemma self_remover_eq:
  "self_remover = loaded\<lparr>handlers := [''*'' \<mapsto> [8, 4]]\<rparr>"
  by (simp add: self_remover_def on_registered star_not_inherited loaded_simps)

lemmas frame_eval =
  dispatched_def invocations_def printed_def message_listener_def console_emit_def
  report_handler_def report_catch_all_def
  sample_env_def sample_parse_def sample_callback_def handlers_get_def off_def loaded_simps
  a_not_inherited star_not_inherited empty_not_inherited registered_def

lemmas passes_eval =
  after_both_passes_def after_type_pass_def invoke_in_order_def invoke_isolated_def
  sample_env_def sample_callback_def handlers_get_def off_def loaded_simps
  a_not_inherited star_not_inherited empty_not_inherited registered_def

text \<open>
  A key found on \<^verbatim>\<open>Object.prototype\<close>: the dispatch of such a frame stops with a
  TypeError before the wildcard pass, and so do \<open>on\<close> and \<open>off\<close>. A type that is an
  object with a property \<^verbatim>\<open>toString\<close> of its own stops the dispatch as well.
\<close>

lemma inherited_key_example:
  \<open>message_listener sample_env ''{"type":"toString"}'' subscribed = (Some TypeError, subscribed) \<and>
   dispatched sample_env ''{"type":"toString"}'' subscribed = [] \<and>
   on ''toString'' 1 subscribed = (Some TypeError, subscribed) \<and>
   off ''toString'' 1 subscribed = (Some TypeError, subscribed) \<and>
   message_listener sample_env ''{"type":{"toString":1}}'' subscribed =
     (Some TypeError, subscribed)\<close>
  by (simp add: frame_eval subscribed_eq on_def off_def Object_prototype_keys_def)

lemma isConnected_cases:
  "isConnected st =
     (if connection_open st then JBool True
      else if socket st = None then JNull else JBool False)"
  by (simp add: isConnected_def connection_open_def split: option.split)

subsection \<open>Outbound send\<close>

text \<open>
  C1. For every message \<open>m\<close>: when the connection is open, \<open>send\<close> returns \<open>True\<close> and
  hands the serialised message to the transport exactly once (one frame more than
  before, nothing else changed); when it is not open, \<open>send\<close> returns \<open>False\<close>, prints
  one diagnostic and hands nothing to the transport (only the console changed).
\<close>

theorem send_contract:
  "(connection_open st \<longrightarrow>
      send E m st = (True, st\<lparr>sent := sent st @ [JSON_stringify E m]\<rparr>)) \<and>
   (\<not> connection_open st \<longrightarrow>
      send E m st = (False, st\<lparr>console := console st @ [WarnCannotSend m]\<rparr>))"
  by (simp add: send_def connection_open_def console_emit_def split: option.split)

theorem send_contract_witness:
  \<open>connection_open (step sample_env EvOpen loaded) \<and>
   send sample_env (JObj [(''action'', JStr ''get_all'')]) (step sample_env EvOpen loaded) =
     (True, (step sample_env EvOpen loaded)\<lparr>sent := [''{"action":"get_all"}'']\<rparr>) \<and>
   \<not> connection_open loaded \<and>
   send sample_env (JObj [(''action'', JStr ''get_all'')]) loaded =
     (False, loaded\<lparr>console := [WarnCannotSend (JObj [(''action'', JStr ''get_all'')])]\<rparr>)\<close>
proof -
  have o: "connection_open (step sample_env EvOpen loaded)"
    by (simp add: connection_open_def opened_simps del: step.simps)
  have c: "\<not> connection_open loaded"
    by (simp add: connection_open_def loaded_simps)
  have j: \<open>JSON_stringify sample_env (JObj [(''action'', JStr ''get_all'')]) =
      ''{"action":"get_all"}''\<close>
    by (simp add: sample_env_def sample_stringify_def)
  show ?thesis
    using send_contract [of "step sample_env EvOpen loaded" sample_env
        "JObj [(''action'', JStr ''get_all'')]"]
      send_contract [of loaded sample_env "JObj [(''action'', JStr ''get_all'')]"] o c j
    by (simp add: opened_simps loaded_simps del: step.simps)
qed

subsection \<open>Inbound dispatch: order\<close>




subsection \<open>Inbound dispatch: frames that are dropped\<close>

text \<open>
  C3. A frame that does not decode, and a frame that decodes to a value other than
  \<^verbatim>\<open>null\<close> without a type field, is dropped with one diagnostic, no callback and no
  other change (\<open>undecodable_dropped\<close>, \<open>untyped_dropped\<close>). The frame \<^verbatim>\<open>null\<close> is
  the case the listener misses: it decodes, it has no type field, and the read of its
  type throws before the guard, so the listener prints no diagnostic of its own. The
  theorem runs the listener on that frame.
\<close>

theorem null_frame_throws:
  \<open>JSON_parse sample_env ''null'' = Some JNull \<and>
   get_prop JNull ''type'' = Inl TypeError \<and>
   message_listener sample_env ''null'' subscribed = (Some TypeError, subscribed) \<and>
   printed sample_env ''null'' subscribed = [] \<and>
   dispatched sample_env ''null'' subscribed = []\<close>
  by (simp add: frame_eval)

subsection \<open>Reconnection\<close>

text \<open>
  C4. In every state the module can reach from its load, by any sequence of events, at
  most one timeout is pending. A closure of the open connection leaves exactly one
  pending timeout, due 3000 ms later. A second closure before the timeout has run
  leaves again exactly one, the new one: the first is cancelled. The pending timeout
  does not run before its delay has elapsed, and once it has, it runs once and a new
  connection attempt is under way.
\<close>

theorem one_pending_reconnect:
  assumes "st = run E evs (module_load d a)"
  shows "length (timers st) \<le> 1 \<and>
    (connection_open st \<longrightarrow>
       timers (step E (EvClose code reason) st) =
         [\<lparr>tid = next_tid st, due = clock st + 3000\<rparr>]) \<and>
    timers (step E (EvClose code' reason') (step E (EvElapse n) (step E (EvClose code reason) st))) =
      [\<lparr>tid = Suc (next_tid st), due = clock st + n + 3000\<rparr>] \<and>
    (n < 3000 \<longrightarrow>
       step E EvTimeout (step E (EvElapse n) (step E (EvClose code reason) st)) =
         step E (EvElapse n) (step E (EvClose code reason) st)) \<and>
    (3000 \<le> n \<longrightarrow>
       timers (step E EvTimeout (step E (EvElapse n) (step E (EvClose code reason) st))) = [] \<and>
       socket (step E EvTimeout (step E (EvElapse n) (step E (EvClose code reason) st))) =
         Some \<lparr>url = WS_URL, readyState = CONNECTING\<rparr>)"
proof -
  have p: "pending_ok st" unfolding assms by (rule pending_ok_run [OF pending_ok_module_load])
  have l: "length (timers st) \<le> 1" using p by (auto simp: pending_ok_iff)
  let ?c = "step E (EvClose code reason) st"
  have p0: "pending_ok (set_readyState CLOSED st)" using p by simp
  note c1 = close_listener_timers [OF p0, of code reason]
  have t1: "timers ?c = [\<lparr>tid = next_tid st, due = clock st + 3000\<rparr>]"
    using c1(1) by (simp add: RECONNECT_DELAY_def)
  let ?e = "step E (EvElapse n) ?c"
  have te: "timers ?e = [\<lparr>tid = next_tid st, due = clock st + 3000\<rparr>]"
    using t1 by simp
  have ce: "clock ?e = clock st + n" using c1(4) by simp
  have pe: "pending_ok (set_readyState CLOSED ?e)"
    using pending_ok_step [OF pending_ok_step [OF p, of E "EvClose code reason"], of E "EvElapse n"]
    by simp
  note c2 = close_listener_timers [OF pe, of code' reason']
  have t2: "timers (step E (EvClose code' reason') ?e) =
      [\<lparr>tid = Suc (next_tid st), due = clock st + n + 3000\<rparr>]"
    using c2(1) c1(3,4) by (simp add: RECONNECT_DELAY_def)
  have early: "n < 3000 \<longrightarrow> step E EvTimeout ?e = ?e"
  proof
    assume "n < 3000"
    then have "clock ?e < clock st + 3000" using ce by simp
    from due_later_idle [OF te this] show "step E EvTimeout ?e = ?e" by simp
  qed
  have late: "3000 \<le> n \<longrightarrow> timers (step E EvTimeout ?e) = [] \<and>
      socket (step E EvTimeout ?e) = Some \<lparr>url = WS_URL, readyState = CONNECTING\<rparr>"
  proof
    assume "3000 \<le> n"
    then have "clock st + 3000 \<le> clock ?e" using ce by simp
    from due_now_reconnects [OF te this]
    show "timers (step E EvTimeout ?e) = [] \<and>
      socket (step E EvTimeout ?e) = Some \<lparr>url = WS_URL, readyState = CONNECTING\<rparr>"
      by simp
  qed
  from l t1 t2 early late show ?thesis by simp
qed

theorem one_pending_reconnect_witness:
  "step sample_env EvOpen loaded = run sample_env [EvOpen] (module_load (Some ([], [])) []) \<and>
   connection_open (step sample_env EvOpen loaded) \<and>
   length (timers (step sample_env EvOpen loaded)) \<le> 1 \<and>
   timers (step sample_env (EvClose 1006 []) (step sample_env EvOpen loaded)) =
     [\<lparr>tid = 1, due = 3000\<rparr>] \<and>
   timers (step sample_env (EvClose 1006 [])
     (step sample_env (EvElapse 100)
       (step sample_env (EvClose 1006 []) (step sample_env EvOpen loaded)))) =
     [\<lparr>tid = 2, due = 3100\<rparr>] \<and>
   step sample_env EvTimeout
     (step sample_env (EvElapse 100)
       (step sample_env (EvClose 1006 []) (step sample_env EvOpen loaded))) =
     step sample_env (EvElapse 100)
       (step sample_env (EvClose 1006 []) (step sample_env EvOpen loaded)) \<and>
   timers (step sample_env EvTimeout
     (step sample_env (EvElapse 3000)
       (step sample_env (EvClose 1006 []) (step sample_env EvOpen loaded)))) = [] \<and>
   socket (step sample_env EvTimeout
     (step sample_env (EvElapse 3000)
       (step sample_env (EvClose 1006 []) (step sample_env EvOpen loaded)))) =
     Some \<lparr>url = WS_URL, readyState = CONNECTING\<rparr>"
proof -
  have r: "step sample_env EvOpen loaded = run sample_env [EvOpen] (module_load (Some ([], [])) [])"
    by (simp add: loaded_def)
  have o: "connection_open (step sample_env EvOpen loaded)"
    by (simp add: connection_open_def opened_simps del: step.simps)
  have n: "next_tid (step sample_env EvOpen loaded) = 1" "clock (step sample_env EvOpen loaded) = 0"
    by (simp_all add: opened_simps del: step.simps)
  show ?thesis
    using one_pending_reconnect [OF r, where code = 1006 and reason = "[]" and code' = 1006
        and reason' = "[]" and n = 100]
      one_pending_reconnect [OF r, where code = 1006 and reason = "[]" and code' = 1006
        and reason' = "[]" and n = 3000]
      r o n
    by (simp del: step.simps run.simps)
qed

subsection \<open>Inbound dispatch: handlers that throw\<close>




subsection \<open>Unsubscribing\<close>




subsection \<open>Subscribing twice\<close>




subsection \<open>The connection test\<close>

text \<open>
  C8. \<open>isConnected\<close> takes the state and returns a value only, and it returns \<open>true\<close>
  exactly when the connection is open (\<open>isConnected_cases\<close>). When no socket exists,
  between a closure and the next connection attempt, the value is \<^verbatim>\<open>null\<close>, not the
  boolean \<open>false\<close>. The theorem evaluates it in that state.
\<close>

theorem isConnected_null_when_closed:
  "socket (step sample_env (EvClose 1006 []) (step sample_env EvOpen loaded)) = None \<and>
   \<not> connection_open (step sample_env (EvClose 1006 []) (step sample_env EvOpen loaded)) \<and>
   isConnected (step sample_env (EvClose 1006 []) (step sample_env EvOpen loaded)) = JNull \<and>
   isConnected (step sample_env (EvClose 1006 []) (step sample_env EvOpen loaded)) \<noteq> JBool False"
  by (simp add: isConnected_def connection_open_def closed_simps del: step.simps)

subsection \<open>Falsy types\<close>

text \<open>
  C9. For every frame that decodes to an object whose type field is present but falsy:
  the listener prints the one diagnostic \<open>WarnNoType\<close> with the decoded object, invokes
  no callback and changes nothing else; a frame whose object has no type field at all
  takes the same path and prints the same diagnostic.
\<close>

theorem falsy_type_dropped:
  assumes "JSON_parse E data = Some (JObj kvs)"
    and "map_of kvs ''type'' = Some v"
    and "\<not> truthy v"
  shows "message_listener E data st =
      (None, st\<lparr>console := console st @ [WarnNoType (JObj kvs)]\<rparr>) \<and>
    dispatched E data st = [] \<and>
    printed E data st = [WarnNoType (JObj kvs)] \<and>
    (JSON_parse E data' = Some (JObj kvs') \<and> map_of kvs' ''type'' = None \<longrightarrow>
       message_listener E data' st =
         (None, st\<lparr>console := console st @ [WarnNoType (JObj kvs')]\<rparr>))"
  using assms
  by (simp add: message_listener_def console_emit_def dispatched_def invocations_def printed_def)

theorem falsy_type_dropped_witness:
  \<open>JSON_parse sample_env ''{"type":0}'' = Some (JObj [(''type'', JNum (NumZero False))]) \<and>
   map_of [(''type'', JNum (NumZero False))] ''type'' = Some (JNum (NumZero False)) \<and>
   \<not> truthy (JNum (NumZero False)) \<and>
   JSON_parse sample_env ''{"status":"ok"}'' = Some (JObj [(''status'', JStr ''ok'')]) \<and>
   map_of [(''status'', JStr ''ok'')] ''type'' = None \<and>
   message_listener sample_env ''{"type":0}'' subscribed =
     (None, subscribed\<lparr>console := [WarnNoType (JObj [(''type'', JNum (NumZero False))])]\<rparr>) \<and>
   dispatched sample_env ''{"type":0}'' subscribed = [] \<and>
   printed sample_env ''{"type":0}'' subscribed =
     [WarnNoType (JObj [(''type'', JNum (NumZero False))])] \<and>
   message_listener sample_env ''{"status":"ok"}'' subscribed =
     (None, subscribed\<lparr>console := [WarnNoType (JObj [(''status'', JStr ''ok'')])]\<rparr>)\<close>
proof -
  have p: \<open>JSON_parse sample_env ''{"type":0}'' = Some (JObj [(''type'', JNum (NumZero False))])\<close>
    by (simp add: sample_env_def sample_parse_def)
  have g: "map_of [(''type'', JNum (NumZero False))] ''type'' = Some (JNum (NumZero False))"
    by simp
  have f: "\<not> truthy (JNum (NumZero False))" by simp
  have p': \<open>JSON_parse sample_env ''{"status":"ok"}'' = Some (JObj [(''status'', JStr ''ok'')])\<close>
    by (simp add: sample_env_def sample_parse_def)
  have g': "map_of [(''status'', JStr ''ok'')] ''type'' = None" by simp
  have c: "console subscribed = []" by (simp add: subscribed_eq loaded_simps)
  show ?thesis
    using falsy_type_dropped [OF p g f, where st = subscribed
        and data' = \<open>''{"status":"ok"}''\<close> and kvs' = "[(''status'', JStr ''ok'')]"]
      p g f p' g' c
    by simp
qed

subsection \<open>The wildcard key as a type\<close>

text \<open>
  C10, as amended. For every frame whose decoded type field is the string \<^verbatim>\<open>"*"\<close>, the
  listener completes and leaves the state that the specification's dispatch leaves: the
  handlers subscribed under the wildcard key when the frame arrives are invoked by the
  type-specific pass, and the handlers subscribed under it when that pass is over are
  invoked by the wildcard pass. When the first pass leaves the wildcard sequence as it
  was, the sequence is invoked twice over and each handler runs two times for each of
  its subscriptions.
\<close>

theorem wildcard_type_invokes_twice:
  assumes "JSON_parse E data = Some payload"
    and "get_prop payload ''type'' = Inr (Some (JStr ''*''))"
  shows "message_listener E data st = (None, after_both_passes E ''*'' payload st) \<and>
    map fst (dispatched E data st) =
      registered st ''*'' @ registered (after_type_pass E ''*'' payload st) ''*'' \<and>
    (registered (after_type_pass E ''*'' payload st) ''*'' = registered st ''*'' \<longrightarrow>
       map fst (dispatched E data st) = registered st ''*'' @ registered st ''*'' \<and>
       count_list (map fst (dispatched E data st)) cb = 2 * count_list (registered st ''*'') cb)"
proof -
  have ne: "''*'' \<noteq> []" by simp
  note s = dispatch_string_summary [OF assms(1,2) ne array_or_empty_registered [OF star_not_inherited]]
  show ?thesis using s(1,2) by simp
qed

theorem wildcard_type_invokes_twice_witness:
  \<open>JSON_parse sample_env ''{"type":"*"}'' = Some (JObj [(''type'', JStr ''*'')]) \<and>
   get_prop (JObj [(''type'', JStr ''*'')]) ''type'' = Inr (Some (JStr ''*'')) \<and>
   registered subscribed ''*'' = [4] \<and>
   registered (after_type_pass sample_env ''*'' (JObj [(''type'', JStr ''*'')]) subscribed) ''*'' =
     registered subscribed ''*'' \<and>
   map fst (dispatched sample_env ''{"type":"*"}'' subscribed) = [4, 4] \<and>
   count_list (map fst (dispatched sample_env ''{"type":"*"}'' subscribed)) 4 = 2 \<and>
   app (snd (message_listener sample_env ''{"type":"*"}'' subscribed)) = [4, 4]\<close>
proof -
  let ?p = "JObj [(''type'', JStr ''*'')]"
  have p: \<open>JSON_parse sample_env ''{"type":"*"}'' = Some ?p\<close>
    by (simp add: sample_env_def sample_parse_def)
  have g: "get_prop ?p ''type'' = Inr (Some (JStr ''*''))" by simp
  have r: "registered subscribed ''*'' = [4]" by (simp add: subscribed_eq)
  have r2: "registered (after_type_pass sample_env ''*'' ?p subscribed) ''*'' = [4]"
    by (simp add: passes_eval subscribed_eq)
  have a: "app (after_both_passes sample_env ''*'' ?p subscribed) = [4, 4]"
    by (simp add: passes_eval subscribed_eq)
  show ?thesis
    using wildcard_type_invokes_twice [OF p g, where st = subscribed and cb = 4] p g r r2 a
    by simp
qed

text \<open>
  C10 as stated, that each wildcard handler runs twice, fails for a handler that
  unsubscribes itself: callback 8 calls \<^verbatim>\<open>off("*", 8)\<close> in the first pass, the wildcard
  pass reads the new sequence, and callback 8 has run once.
\<close>

theorem wildcard_type_invokes_twice_counterexample:
  \<open>JSON_parse sample_env ''{"type":"*"}'' = Some (JObj [(''type'', JStr ''*'')]) \<and>
   get_prop (JObj [(''type'', JStr ''*'')]) ''type'' = Inr (Some (JStr ''*'')) \<and>
   registered self_remover ''*'' = [8, 4] \<and>
   map fst (dispatched sample_env ''{"type":"*"}'' self_remover) = [8, 4, 4] \<and>
   count_list (map fst (dispatched sample_env ''{"type":"*"}'' self_remover)) 8 \<noteq> 2 \<and>
   app (snd (message_listener sample_env ''{"type":"*"}'' self_remover)) = [8, 4, 4]\<close>
  by (simp add: frame_eval self_remover_eq)

end
